theory Spec2Isabelle
  imports Complex_Main
begin

section \<open>Data model\<close>

text \<open>
  The TypeScript types \<open>Member\<close>, \<open>Session\<close>, \<open>AttendanceRecord\<close> and \<open>StoreShape\<close>.
  \<open>Uuid\<close> is \<open>string\<close>. An optional field (\<open>email?: string\<close>) is an \<open>option\<close>:
  \<open>None\<close> stands for a missing key as well as for the value \<open>undefined\<close>, which no
  operation of the program tells apart. The field \<open>id\<close> of the two entity types is
  written \<open>member_id\<close> and \<open>session_id\<close>, the field \<open>notes\<close> \<open>session_notes\<close>.
\<close>

type_synonym Uuid = string

record Member =
  member_id :: Uuid
  member_name :: string
  email :: "string option"
  phone :: "string option"

record Session =
  session_id :: Uuid
  title :: string
  dateISO :: string
  session_notes :: "string option"

record AttendanceRecord =
  sessionId :: Uuid
  memberId :: Uuid
  present :: bool

record StoreShape =
  members :: "Member list"
  sessions :: "Session list"
  attendance :: "AttendanceRecord list"

definition DEFAULT_STORE :: StoreShape where
  "DEFAULT_STORE = \<lparr>members = [], sessions = [], attendance = []\<rparr>"

text \<open>
  \<open>Partial<Member>\<close> and \<open>Partial<Session>\<close>: every field of the entity, the id
  included, may or may not be a key of the patch (\<open>None\<close>: the key is missing). A key of
  an optional field may carry \<open>undefined\<close> (\<open>Some None\<close>). A key of a required field
  carries a string, as the entity types ask.
\<close>

record MemberPatch =
  patch_member_id :: "Uuid option"
  patch_member_name :: "string option"
  patch_email :: "string option option"
  patch_phone :: "string option option"

record SessionPatch =
  patch_session_id :: "Uuid option"
  patch_title :: "string option"
  patch_dateISO :: "string option"
  patch_notes :: "string option option"

text \<open>\<open>Omit<Member, "id">\<close> and \<open>Omit<Session, "id">\<close>, the inputs of the two add operations.\<close>

record MemberInput =
  input_member_name :: string
  input_email :: "string option"
  input_phone :: "string option"

record SessionInput =
  input_title :: string
  input_dateISO :: string
  input_notes :: "string option"

section \<open>Mutation API\<close>

text \<open>
  Each operation is the function handed to \<open>setStore\<close>: it takes the snapshot and
  returns the next one. \<open>generateId()\<close> reads the clock and a random source; the id it
  returned is a parameter of the two add operations.
\<close>

text \<open>The object spread \<open>{ ...m, ...patch }\<close>: a key of the patch overrides the entity's.\<close>

definition spread_member :: "Member \<Rightarrow> MemberPatch \<Rightarrow> Member" where
  "spread_member m p =
     \<lparr>member_id = (case patch_member_id p of None \<Rightarrow> member_id m | Some v \<Rightarrow> v),
      member_name = (case patch_member_name p of None \<Rightarrow> member_name m | Some v \<Rightarrow> v),
      email = (case patch_email p of None \<Rightarrow> email m | Some v \<Rightarrow> v),
      phone = (case patch_phone p of None \<Rightarrow> phone m | Some v \<Rightarrow> v)\<rparr>"

definition spread_session :: "Session \<Rightarrow> SessionPatch \<Rightarrow> Session" where
  "spread_session x p =
     \<lparr>session_id = (case patch_session_id p of None \<Rightarrow> session_id x | Some v \<Rightarrow> v),
      title = (case patch_title p of None \<Rightarrow> title x | Some v \<Rightarrow> v),
      dateISO = (case patch_dateISO p of None \<Rightarrow> dateISO x | Some v \<Rightarrow> v),
      session_notes = (case patch_notes p of None \<Rightarrow> session_notes x | Some v \<Rightarrow> v)\<rparr>"

definition addMember :: "Uuid \<Rightarrow> MemberInput \<Rightarrow> StoreShape \<Rightarrow> StoreShape" where
  "addMember fresh inp s =
     s\<lparr>members := members s @
        [\<lparr>member_id = fresh, member_name = input_member_name inp,
          email = input_email inp, phone = input_phone inp\<rparr>]\<rparr>"

definition updateMember :: "Uuid \<Rightarrow> MemberPatch \<Rightarrow> StoreShape \<Rightarrow> StoreShape" where
  "updateMember i patch s =
     s\<lparr>members := map (\<lambda>m. if member_id m = i then spread_member m patch else m) (members s)\<rparr>"

definition removeMember :: "Uuid \<Rightarrow> StoreShape \<Rightarrow> StoreShape" where
  "removeMember i s =
     s\<lparr>members := filter (\<lambda>m. member_id m \<noteq> i) (members s),
       attendance := filter (\<lambda>a. memberId a \<noteq> i) (attendance s)\<rparr>"

definition addSession :: "Uuid \<Rightarrow> SessionInput \<Rightarrow> StoreShape \<Rightarrow> StoreShape" where
  "addSession fresh inp s =
     s\<lparr>sessions := sessions s @
        [\<lparr>session_id = fresh, title = input_title inp,
          dateISO = input_dateISO inp, session_notes = input_notes inp\<rparr>]\<rparr>"

definition updateSession :: "Uuid \<Rightarrow> SessionPatch \<Rightarrow> StoreShape \<Rightarrow> StoreShape" where
  "updateSession i patch s =
     s\<lparr>sessions := map (\<lambda>x. if session_id x = i then spread_session x patch else x) (sessions s)\<rparr>"

definition removeSession :: "Uuid \<Rightarrow> StoreShape \<Rightarrow> StoreShape" where
  "removeSession i s =
     s\<lparr>sessions := filter (\<lambda>x. session_id x \<noteq> i) (sessions s),
       attendance := filter (\<lambda>a. sessionId a \<noteq> i) (attendance s)\<rparr>"

text \<open>
  \<open>Array.prototype.findIndex\<close>: the index of the first element the predicate accepts,
  \<open>-1\<close> when there is none. The index counts up along the scan.
\<close>

fun findIndexFrom :: "('a \<Rightarrow> bool) \<Rightarrow> 'a list \<Rightarrow> int \<Rightarrow> int" where
  "findIndexFrom P [] i = - 1"
| "findIndexFrom P (x # xs) i = (if P x then i else findIndexFrom P xs (i + 1))"

definition findIndex :: "('a \<Rightarrow> bool) \<Rightarrow> 'a list \<Rightarrow> int" where
  "findIndex P xs = findIndexFrom P xs 0"

text \<open>
  \<open>setAttendance\<close>: \<open>next\<close> is a copy of the attendance array; at a found index the
  element is replaced by its spread with \<open>present\<close> overridden, otherwise the new record
  is pushed. The index \<open>findIndex\<close> returns is never past the end
  (lemma \<open>findIndex_range\<close>), so the assignment never extends the array.
\<close>

definition setAttendance :: "Uuid \<Rightarrow> Uuid \<Rightarrow> bool \<Rightarrow> StoreShape \<Rightarrow> StoreShape" where
  "setAttendance sid mid p s =
     (let idx = findIndex (\<lambda>a. sessionId a = sid \<and> memberId a = mid) (attendance s);
          next = attendance s
      in s\<lparr>attendance :=
             (if idx \<ge> 0 then next[nat idx := (next ! nat idx)\<lparr>present := p\<rparr>]
              else next @ [\<lparr>sessionId = sid, memberId = mid, present = p\<rparr>])\<rparr>)"

definition clearAll :: "'v \<Rightarrow> 'v \<Rightarrow> 'v" where
  "clearAll empty_store s = empty_store"

definition importJson :: "'v \<Rightarrow> 'v \<Rightarrow> 'v" where
  "importJson json s = json"

section \<open>Runtime values, shape check, import and load\<close>

text \<open>
  What \<open>JSON.parse\<close> returns: a JavaScript value built from \<open>null\<close>, booleans,
  numbers, strings, arrays and objects. An object is the list of its own properties,
  looked up by key. A number carries the value of the parsed double.
\<close>

datatype json =
    JNull
  | JBool bool
  | JNum rat
  | JStr string
  | JArr "json list"
  | JObj "(string \<times> json) list"

text \<open>The value a typed store has at run time, keys in the order of the type declarations.\<close>

definition json_of_opt :: "string \<Rightarrow> string option \<Rightarrow> (string \<times> json) list" where
  "json_of_opt k v = (case v of None \<Rightarrow> [] | Some x \<Rightarrow> [(k, JStr x)])"

definition json_of_member :: "Member \<Rightarrow> json" where
  "json_of_member m =
     JObj ([(''id'', JStr (member_id m)), (''name'', JStr (member_name m))]
           @ json_of_opt ''email'' (email m) @ json_of_opt ''phone'' (phone m))"

definition json_of_session :: "Session \<Rightarrow> json" where
  "json_of_session x =
     JObj ([(''id'', JStr (session_id x)), (''title'', JStr (title x)),
            (''dateISO'', JStr (dateISO x))]
           @ json_of_opt ''notes'' (session_notes x))"

definition json_of_attendance :: "AttendanceRecord \<Rightarrow> json" where
  "json_of_attendance a =
     JObj [(''sessionId'', JStr (sessionId a)), (''memberId'', JStr (memberId a)),
           (''present'', JBool (present a))]"

definition json_of_store :: "StoreShape \<Rightarrow> json" where
  "json_of_store s =
     JObj [(''members'', JArr (map json_of_member (members s))),
           (''sessions'', JArr (map json_of_session (sessions s))),
           (''attendance'', JArr (map json_of_attendance (attendance s)))]"

text \<open>JavaScript truthiness: \<open>null\<close>, \<open>false\<close>, zero and the empty string are falsy.\<close>

fun truthy :: "json \<Rightarrow> bool" where
  "truthy JNull = False"
| "truthy (JBool b) = b"
| "truthy (JNum n) = (n \<noteq> 0)"
| "truthy (JStr s) = (s \<noteq> [])"
| "truthy (JArr xs) = True"
| "truthy (JObj fs) = True"

text \<open>
  Property access \<open>x.k\<close> on a non-null value, \<open>None\<close> for \<open>undefined\<close>. It is read at
  the keys \<open>members\<close>, \<open>sessions\<close> and \<open>attendance\<close> only, which a boolean, a number,
  a string or an array does not have.
\<close>

fun get_prop :: "json \<Rightarrow> string \<Rightarrow> json option" where
  "get_prop (JObj fs) k = map_of fs k"
| "get_prop x k = None"

fun Array_isArray :: "json option \<Rightarrow> bool" where
  "Array_isArray (Some (JArr xs)) = True"
| "Array_isArray v = False"

text \<open>
  \<open>isStoreShape\<close>: the chain \<open>x && \<dots> && \<dots> && \<dots>\<close> yields a falsy \<open>x\<close> itself or a
  boolean; the caller tests it in an \<open>if\<close>, so its truthiness is what is modelled.
\<close>

definition isStoreShape :: "json \<Rightarrow> bool" where
  "isStoreShape x =
     (truthy x \<and> Array_isArray (get_prop x ''members'')
      \<and> Array_isArray (get_prop x ''sessions'')
      \<and> Array_isArray (get_prop x ''attendance''))"

datatype js_error = SyntaxError | StorageError

text \<open>
  \<open>reader.onload\<close> of \<open>onImport\<close>, on the text of the chosen file. \<open>JSON.parse\<close> is a
  parameter: it returns a value or throws. The result is the next snapshot and the
  message passed to \<open>alert\<close>, if any.
\<close>

definition reader_onload ::
  "(string \<Rightarrow> js_error + json) \<Rightarrow> string \<Rightarrow> json \<Rightarrow> json \<times> string option" where
  "reader_onload parse file_text store =
     (case parse file_text of
        Inl e \<Rightarrow> (store, Some ''Failed to parse JSON'')
      | Inr data \<Rightarrow>
          if isStoreShape data then (importJson data store, None)
          else (store, Some ''Invalid backup format''))"

text \<open>
  The first effect of \<open>useLocalStore\<close>. \<open>item\<close> is what \<open>localStorage.getItem(key)\<close>
  does: it throws, or returns \<open>null\<close> (\<open>None\<close>) or the stored text. \<open>load_body\<close> is
  the body of the \<open>try\<close>; \<open>useLocalStore_load\<close> adds the empty \<open>catch\<close>, after which
  the state is the one \<open>useState\<close> began with.
\<close>

definition load_body ::
  "(string \<Rightarrow> js_error + 'v) \<Rightarrow> js_error + string option \<Rightarrow> 'v \<Rightarrow> js_error + 'v" where
  "load_body parse item state =
     (case item of
        Inl e \<Rightarrow> Inl e
      | Inr None \<Rightarrow> Inr state
      | Inr (Some raw) \<Rightarrow>
          if raw \<noteq> [] then (case parse raw of Inl e \<Rightarrow> Inl e | Inr v \<Rightarrow> Inr v)
          else Inr state)"

definition useLocalStore_load ::
  "(string \<Rightarrow> js_error + 'v) \<Rightarrow> js_error + string option \<Rightarrow> 'v \<Rightarrow> js_error + 'v" where
  "useLocalStore_load parse item initial =
     (case load_body parse item initial of Inl e \<Rightarrow> Inr initial | Inr s \<Rightarrow> Inr s)"

text \<open>\<open>DataProvider\<close> starts the hook with \<open>DEFAULT_STORE\<close>.\<close>

definition DataProvider_load ::
  "(string \<Rightarrow> js_error + json) \<Rightarrow> js_error + string option \<Rightarrow> js_error + json" where
  "DataProvider_load parse item = useLocalStore_load parse item (json_of_store DEFAULT_STORE)"

text \<open>
  The shape condition in the words of the specification: the candidate has an array
  field of the given name.
\<close>

definition has_array_field :: "string \<Rightarrow> json \<Rightarrow> bool" where
  "has_array_field k c =
     (case c of
        JObj fs \<Rightarrow> (case map_of fs k of Some (JArr vs) \<Rightarrow> True | _ \<Rightarrow> False)
      | _ \<Rightarrow> False)"

section \<open>CSV export\<close>

text \<open>
  A string is a list of characters. The encoder looks at three characters only, the
  double quote, the comma and the line feed, all of them ASCII.
\<close>

definition dquote :: char where
  "dquote = CHR 0x22"

definition newline :: char where
  "newline = CHR 0x0A"

definition comma :: char where
  "comma = CHR '',''"

text \<open>The regular expression \<open>/[",\n]/\<close>: some character of the field is in the class.\<close>

definition regex_test :: "string \<Rightarrow> bool" where
  "regex_test field = list_ex (\<lambda>c. c = dquote \<or> c = comma \<or> c = newline) field"

text \<open>
  \<open>String.prototype.replaceAll\<close> with a string pattern: the occurrences are taken from
  left to right and do not overlap; the empty pattern matches before every character
  and at the end.
\<close>

function replaceAll :: "string \<Rightarrow> string \<Rightarrow> string \<Rightarrow> string" where
  "replaceAll pat rep s =
     (if pat = [] then rep @ concat (map (\<lambda>c. c # rep) s)
      else if s = [] then []
      else if take (length pat) s = pat then rep @ replaceAll pat rep (drop (length pat) s)
      else hd s # replaceAll pat rep (tl s))"
  by pat_completeness auto
termination
  by (relation "measure (\<lambda>(pat, rep, s). length s)") auto

declare replaceAll.simps [simp del]

definition csv_field :: "string \<Rightarrow> string" where
  "csv_field field =
     (if regex_test field then [dquote] @ replaceAll [dquote] [dquote, dquote] field @ [dquote]
      else field)"

text \<open>\<open>Array.prototype.join\<close> on an array of strings.\<close>

fun join :: "string \<Rightarrow> string list \<Rightarrow> string" where
  "join sep [] = []"
| "join sep [x] = x"
| "join sep (x # y # ys) = x @ sep @ join sep (y # ys)"

text \<open>
  \<open>attendanceMap\<close>: the scan of the attendance array into a \<open>Map\<close>, for the session id
  held by the component.
\<close>

definition attendanceMap :: "StoreShape \<Rightarrow> Uuid \<Rightarrow> (Uuid \<rightharpoonup> bool)" where
  "attendanceMap store sid =
     fold (\<lambda>rec m. if sessionId rec = sid then m(memberId rec \<mapsto> present rec) else m)
          (attendance store) Map.empty"

text \<open>\<open>v || ""\<close> on an optional string.\<close>

definition or_empty :: "string option \<Rightarrow> string" where
  "or_empty v = (case v of None \<Rightarrow> [] | Some x \<Rightarrow> if x \<noteq> [] then x else [])"

definition header :: "string list" where
  "header = [''Member Name'', ''Email'', ''Phone'', ''Present'', ''Session Title'', ''Date'']"

text \<open>
  \<open>exportCsvForSession\<close>, for the store and the session id held by the component:
  nothing when no session is selected, otherwise the arguments of \<open>downloadFile\<close>
  (file name, content, MIME type).
\<close>

definition exportCsvForSession :: "StoreShape \<Rightarrow> Uuid \<Rightarrow> (string \<times> string \<times> string) option" where
  "exportCsvForSession store sid =
     (case find (\<lambda>x. session_id x = sid) (sessions store) of
        None \<Rightarrow> None
      | Some selected \<Rightarrow>
          (let rows =
                 fold (\<lambda>m rows. rows @
                         [[member_name m, or_empty (email m), or_empty (phone m),
                           (if attendanceMap store sid (member_id m) = Some True
                            then ''Yes'' else ''No''),
                           title selected, dateISO selected]])
                      (members store) [header];
               csv = join [newline] (map (\<lambda>r. join [comma] (map csv_field r)) rows)
           in Some (dateISO selected @ ''-'' @ title selected @ ''-attendance.csv'',
                    csv, ''text/csv'')))"

text \<open>
  The export in the words of the specification: the Present column says \<open>Yes\<close> when a
  record of the session and the member exists with \<open>present\<close> true, and each member has
  one row after the header.
\<close>

definition spec_present :: "StoreShape \<Rightarrow> Uuid \<Rightarrow> Uuid \<Rightarrow> bool" where
  "spec_present store sid mid =
     list_ex (\<lambda>a. sessionId a = sid \<and> memberId a = mid \<and> present a) (attendance store)"

definition spec_row :: "StoreShape \<Rightarrow> Session \<Rightarrow> Member \<Rightarrow> string list" where
  "spec_row store sess m =
     [member_name m,
      (case email m of None \<Rightarrow> [] | Some e \<Rightarrow> e),
      (case phone m of None \<Rightarrow> [] | Some p \<Rightarrow> p),
      (if spec_present store (session_id sess) (member_id m) then ''Yes'' else ''No''),
      title sess, dateISO sess]"

definition spec_csv :: "StoreShape \<Rightarrow> Session \<Rightarrow> string" where
  "spec_csv store sess =
     join [newline]
       (map (\<lambda>r. join [comma] (map csv_field r))
            (header # map (spec_row store sess) (members store)))"

section \<open>Auxiliary definitions\<close>

text \<open>
  The upsert of \<open>setAttendance\<close> as a recursion on the attendance list; lemma
  \<open>setAttendance_eq_upsert\<close> shows that it is what the index-based code computes.
\<close>

fun upsert :: "Uuid \<Rightarrow> Uuid \<Rightarrow> bool \<Rightarrow> AttendanceRecord list \<Rightarrow> AttendanceRecord list" where
  "upsert sid mid p [] = [\<lparr>sessionId = sid, memberId = mid, present = p\<rparr>]"
| "upsert sid mid p (a # as) =
     (if sessionId a = sid \<and> memberId a = mid then a\<lparr>present := p\<rparr> # as
      else a # upsert sid mid p as)"

text \<open>Concrete values: the scenario of the specification and some variations.\<close>

definition ann :: Member where
  "ann = \<lparr>member_id = ''m1'', member_name = ''Ann'', email = None, phone = None\<rparr>"

definition week1 :: Session where
  "week1 = \<lparr>session_id = ''s1'', title = ''Week 1'', dateISO = ''2025-01-01'',
             session_notes = None\<rparr>"

definition scenario_store :: StoreShape where
  "scenario_store =
     \<lparr>members = [ann], sessions = [week1],
      attendance = [\<lparr>sessionId = ''s1'', memberId = ''m1'', present = True\<rparr>]\<rparr>"

definition dup_store :: StoreShape where
  "dup_store =
     \<lparr>members = [ann], sessions = [week1],
      attendance = [\<lparr>sessionId = ''s1'', memberId = ''m1'', present = True\<rparr>,
                    \<lparr>sessionId = ''s1'', memberId = ''m1'', present = False\<rparr>]\<rparr>"

definition rename_id :: MemberPatch where
  "rename_id = \<lparr>patch_member_id = Some ''m2'', patch_member_name = None,
                 patch_email = None, patch_phone = None\<rparr>"

definition keep_name :: MemberPatch where
  "keep_name = \<lparr>patch_member_id = None, patch_member_name = Some ''Anna'',
                 patch_email = Some None, patch_phone = None\<rparr>"

definition retitle :: SessionPatch where
  "retitle = \<lparr>patch_session_id = None, patch_title = Some ''Week one'',
               patch_dateISO = None, patch_notes = None\<rparr>"

definition two_fields :: json where
  "two_fields = JObj [(''members'', JArr []), (''sessions'', JArr [])]"

section \<open>Facts about \<open>findIndex\<close> and the upsert\<close>

lemma findIndexFrom_takeWhile:
  "findIndexFrom P xs i =
     (if list_ex P xs then i + int (length (takeWhile (\<lambda>x. \<not> P x) xs)) else - 1)"
  by (induction xs arbitrary: i) auto

lemma findIndex_first:
  "findIndex P xs = (if list_ex P xs then int (length (takeWhile (\<lambda>x. \<not> P x) xs)) else - 1)"
  by (simp add: findIndex_def findIndexFrom_takeWhile)

lemma first_match_less: "list_ex P xs \<Longrightarrow> length (takeWhile (\<lambda>x. \<not> P x) xs) < length xs"
  by (induction xs) auto

lemma first_match_holds: "list_ex P xs \<Longrightarrow> P (xs ! length (takeWhile (\<lambda>x. \<not> P x) xs))"
  by (induction xs) auto

lemma first_match_least: "j < length (takeWhile (\<lambda>x. \<not> P x) xs) \<Longrightarrow> \<not> P (xs ! j)"
proof -
  assume j: "j < length (takeWhile (\<lambda>x. \<not> P x) xs)"
  then have "takeWhile (\<lambda>x. \<not> P x) xs ! j = xs ! j"
    by (rule takeWhile_nth)
  moreover from j have "takeWhile (\<lambda>x. \<not> P x) xs ! j \<in> set (takeWhile (\<lambda>x. \<not> P x) xs)"
    by (rule nth_mem)
  ultimately show ?thesis
    by (auto dest: set_takeWhileD)
qed

lemma findIndex_range: "findIndex P xs < int (length xs)"
  using first_match_less [of P xs] by (simp add: findIndex_first)

lemma setAttendance_attendance:
  "attendance (setAttendance sid mid p s) =
     (let K = (\<lambda>a. sessionId a = sid \<and> memberId a = mid); xs = attendance s;
          n = length (takeWhile (\<lambda>x. \<not> K x) xs)
      in if list_ex K xs then xs[n := (xs ! n)\<lparr>present := p\<rparr>]
         else xs @ [\<lparr>sessionId = sid, memberId = mid, present = p\<rparr>])"
  by (simp add: setAttendance_def findIndex_first Let_def)

lemma upsert_takeWhile:
  "upsert sid mid p xs =
     (let K = (\<lambda>a. sessionId a = sid \<and> memberId a = mid);
          n = length (takeWhile (\<lambda>x. \<not> K x) xs)
      in if list_ex K xs then xs[n := (xs ! n)\<lparr>present := p\<rparr>]
         else xs @ [\<lparr>sessionId = sid, memberId = mid, present = p\<rparr>])"
  by (induction xs) (auto simp: Let_def)

lemma setAttendance_eq_upsert:
  "setAttendance sid mid p s = s\<lparr>attendance := upsert sid mid p (attendance s)\<rparr>"
  by (simp add: setAttendance_def findIndex_first upsert_takeWhile Let_def)

lemma upsert_idem: "upsert sid mid p (upsert sid mid p xs) = upsert sid mid p xs"
  by (induction xs) auto

lemma filter_key_absent:
  "\<not> list_ex (\<lambda>a. sessionId a = sid \<and> memberId a = mid) xs \<Longrightarrow>
   filter (\<lambda>a. sessionId a = sid \<and> memberId a = mid) xs = []"
  by (induction xs) auto

lemma upsert_count:
  "distinct (map (\<lambda>a. (sessionId a, memberId a)) xs) \<Longrightarrow>
   length (filter (\<lambda>a. sessionId a = sid \<and> memberId a = mid) (upsert sid mid p xs)) = 1"
proof (induction xs)
  case Nil
  then show ?case by simp
next
  case (Cons a as)
  show ?case
  proof (cases "sessionId a = sid \<and> memberId a = mid")
    case True
    with Cons.prems have "\<not> list_ex (\<lambda>a. sessionId a = sid \<and> memberId a = mid) as"
      by (auto simp: list_ex_iff image_iff)
    then have "filter (\<lambda>a. sessionId a = sid \<and> memberId a = mid) as = []"
      by (rule filter_key_absent)
    with True show ?thesis by simp
  next
    case False
    with Cons show ?thesis by auto
  qed
qed

section \<open>The upsert of attendance\<close>

text \<open>
  C1. For every store and every \<open>(sessionId, memberId, present)\<close>: if the attendance list
  has a record with that key, \<open>setAttendance\<close> returns the store with the \<open>present\<close> flag
  of the first such record overwritten and nothing appended (the list is the old one
  updated at that index); otherwise it returns the store with the new record appended at
  the end of the attendance list.
\<close>

theorem setAttendance_overwrites_or_appends:
  "(list_ex (\<lambda>a. sessionId a = sid \<and> memberId a = mid) (attendance s) \<longrightarrow>
      (\<exists>i < length (attendance s).
         sessionId (attendance s ! i) = sid \<and> memberId (attendance s ! i) = mid
         \<and> (\<forall>j<i. \<not> (sessionId (attendance s ! j) = sid \<and> memberId (attendance s ! j) = mid))
         \<and> setAttendance sid mid p s =
             s\<lparr>attendance := (attendance s)[i := (attendance s ! i)\<lparr>present := p\<rparr>]\<rparr>))
   \<and> (\<not> list_ex (\<lambda>a. sessionId a = sid \<and> memberId a = mid) (attendance s) \<longrightarrow>
        setAttendance sid mid p s =
          s\<lparr>attendance := attendance s @ [\<lparr>sessionId = sid, memberId = mid, present = p\<rparr>]\<rparr>)"
proof (intro conjI impI)
  let ?K = "\<lambda>a. sessionId a = sid \<and> memberId a = mid"
  let ?n = "length (takeWhile (\<lambda>x. \<not> ?K x) (attendance s))"
  assume ex: "list_ex ?K (attendance s)"
  have "?n < length (attendance s)" using ex by (rule first_match_less)
  moreover have "?K (attendance s ! ?n)" using ex by (rule first_match_holds)
  moreover have "\<forall>j<?n. \<not> ?K (attendance s ! j)" using first_match_least [of _ ?K] by blast
  moreover have "setAttendance sid mid p s =
             s\<lparr>attendance := (attendance s)[?n := (attendance s ! ?n)\<lparr>present := p\<rparr>]\<rparr>"
    using ex by (simp add: setAttendance_def findIndex_first Let_def)
  ultimately show "\<exists>i < length (attendance s).
         sessionId (attendance s ! i) = sid \<and> memberId (attendance s ! i) = mid
         \<and> (\<forall>j<i. \<not> (sessionId (attendance s ! j) = sid \<and> memberId (attendance s ! j) = mid))
         \<and> setAttendance sid mid p s =
             s\<lparr>attendance := (attendance s)[i := (attendance s ! i)\<lparr>present := p\<rparr>]\<rparr>"
    by blast
next
  assume "\<not> list_ex (\<lambda>a. sessionId a = sid \<and> memberId a = mid) (attendance s)"
  then show "setAttendance sid mid p s =
          s\<lparr>attendance := attendance s @ [\<lparr>sessionId = sid, memberId = mid, present = p\<rparr>]\<rparr>"
    by (simp add: setAttendance_def findIndex_first Let_def)
qed

theorem setAttendance_overwrites_or_appends_witness:
  "list_ex (\<lambda>a. sessionId a = ''s1'' \<and> memberId a = ''m1'') (attendance scenario_store)
   \<and> setAttendance ''s1'' ''m1'' False scenario_store =
       scenario_store\<lparr>attendance := [\<lparr>sessionId = ''s1'', memberId = ''m1'', present = False\<rparr>]\<rparr>
   \<and> \<not> list_ex (\<lambda>a. sessionId a = ''s1'' \<and> memberId a = ''m2'') (attendance scenario_store)
   \<and> setAttendance ''s1'' ''m2'' True scenario_store =
       scenario_store\<lparr>attendance := [\<lparr>sessionId = ''s1'', memberId = ''m1'', present = True\<rparr>,
                                       \<lparr>sessionId = ''s1'', memberId = ''m2'', present = True\<rparr>]\<rparr>"
  using setAttendance_overwrites_or_appends [of "''s1''" "''m1''" scenario_store False]
    setAttendance_overwrites_or_appends [of "''s1''" "''m2''" scenario_store True]
  by (simp add: scenario_store_def)

text \<open>
  C5. For every store whose attendance list has at most one record per
  \<open>(sessionId, memberId)\<close> key: applying \<open>setAttendance\<close> twice with the same arguments
  gives the same store as applying it once, and the attendance list of the result has
  exactly one record with that key.
\<close>

theorem setAttendance_idempotent:
  assumes "distinct (map (\<lambda>a. (sessionId a, memberId a)) (attendance s))"
  shows "setAttendance sid mid p (setAttendance sid mid p s) = setAttendance sid mid p s
     \<and> length (filter (\<lambda>a. sessionId a = sid \<and> memberId a = mid)
          (attendance (setAttendance sid mid p (setAttendance sid mid p s)))) = 1"
  using assms by (simp add: setAttendance_eq_upsert upsert_idem upsert_count)

theorem setAttendance_idempotent_witness:
  "distinct (map (\<lambda>a. (sessionId a, memberId a)) (attendance scenario_store))
   \<and> setAttendance ''s1'' ''m1'' False (setAttendance ''s1'' ''m1'' False scenario_store) =
       setAttendance ''s1'' ''m1'' False scenario_store
   \<and> length (filter (\<lambda>a. sessionId a = ''s1'' \<and> memberId a = ''m1'')
        (attendance (setAttendance ''s1'' ''m1'' False
           (setAttendance ''s1'' ''m1'' False scenario_store)))) = 1"
proof -
  have d: "distinct (map (\<lambda>a. (sessionId a, memberId a)) (attendance scenario_store))"
    by (simp add: scenario_store_def)
  show ?thesis
    using d setAttendance_idempotent [OF d, of "''s1''" "''m1''" False] by (rule conjI)
qed

text \<open>
  C10. For every store and every \<open>(sessionId, memberId, present)\<close>, \<open>setAttendance\<close>
  leaves the members and the sessions unchanged; when a record with the key exists, the
  attendance list keeps its length, every record at another index than the matched one
  is unchanged, and the matched record keeps its \<open>sessionId\<close> and \<open>memberId\<close>.
\<close>

theorem setAttendance_frame:
  "members (setAttendance sid mid p s) = members s
   \<and> sessions (setAttendance sid mid p s) = sessions s
   \<and> (list_ex (\<lambda>a. sessionId a = sid \<and> memberId a = mid) (attendance s) \<longrightarrow>
        length (attendance (setAttendance sid mid p s)) = length (attendance s)
        \<and> (\<exists>i < length (attendance s).
              sessionId (attendance s ! i) = sid \<and> memberId (attendance s ! i) = mid
              \<and> (\<forall>j < length (attendance s). j \<noteq> i \<longrightarrow>
                    attendance (setAttendance sid mid p s) ! j = attendance s ! j)
              \<and> sessionId (attendance (setAttendance sid mid p s) ! i) = sessionId (attendance s ! i)
              \<and> memberId (attendance (setAttendance sid mid p s) ! i) = memberId (attendance s ! i)))"
proof (intro conjI impI)
  show "members (setAttendance sid mid p s) = members s"
    by (simp add: setAttendance_def Let_def)
  show "sessions (setAttendance sid mid p s) = sessions s"
    by (simp add: setAttendance_def Let_def)
next
  let ?K = "\<lambda>a. sessionId a = sid \<and> memberId a = mid"
  let ?n = "length (takeWhile (\<lambda>x. \<not> ?K x) (attendance s))"
  assume ex: "list_ex ?K (attendance s)"
  then have att: "attendance (setAttendance sid mid p s) =
      (attendance s)[?n := (attendance s ! ?n)\<lparr>present := p\<rparr>]"
    by (simp add: setAttendance_attendance Let_def)
  show "length (attendance (setAttendance sid mid p s)) = length (attendance s)"
    by (simp add: att)
  have n: "?n < length (attendance s)" using ex by (rule first_match_less)
  have k: "?K (attendance s ! ?n)" using ex by (rule first_match_holds)
  show "\<exists>i < length (attendance s).
              sessionId (attendance s ! i) = sid \<and> memberId (attendance s ! i) = mid
              \<and> (\<forall>j < length (attendance s). j \<noteq> i \<longrightarrow>
                    attendance (setAttendance sid mid p s) ! j = attendance s ! j)
              \<and> sessionId (attendance (setAttendance sid mid p s) ! i) = sessionId (attendance s ! i)
              \<and> memberId (attendance (setAttendance sid mid p s) ! i) = memberId (attendance s ! i)"
    using n k by (intro exI [of _ ?n]) (simp add: att)
qed

theorem setAttendance_frame_witness:
  "list_ex (\<lambda>a. sessionId a = ''s1'' \<and> memberId a = ''m1'') (attendance dup_store)
   \<and> members (setAttendance ''s1'' ''m1'' False dup_store) = [ann]
   \<and> sessions (setAttendance ''s1'' ''m1'' False dup_store) = [week1]
   \<and> length (attendance (setAttendance ''s1'' ''m1'' False dup_store)) = 2"
  using setAttendance_frame [of "''s1''" "''m1''" False dup_store]
  by (simp add: dup_store_def)

section \<open>Removal and update\<close>

text \<open>
  C2. For every store and every id: after \<open>removeMember\<close> no member has the id, no
  attendance record has it as \<open>memberId\<close>, and the sessions are unchanged; after
  \<open>removeSession\<close> no session has the id, no attendance record has it as \<open>sessionId\<close>,
  and the members are unchanged.
\<close>

theorem remove_cascades:
  "\<not> list_ex (\<lambda>m. member_id m = i) (members (removeMember i s))
   \<and> \<not> list_ex (\<lambda>a. memberId a = i) (attendance (removeMember i s))
   \<and> sessions (removeMember i s) = sessions s
   \<and> \<not> list_ex (\<lambda>x. session_id x = i) (sessions (removeSession i s))
   \<and> \<not> list_ex (\<lambda>a. sessionId a = i) (attendance (removeSession i s))
   \<and> members (removeSession i s) = members s"
  by (simp add: removeMember_def removeSession_def list_ex_iff)

theorem remove_cascades_witness:
  "\<not> list_ex (\<lambda>m. member_id m = ''m1'') (members (removeMember ''m1'' scenario_store))
   \<and> attendance (removeMember ''m1'' scenario_store) = []
   \<and> sessions (removeMember ''m1'' scenario_store) = [week1]
   \<and> sessions (removeSession ''s1'' scenario_store) = []
   \<and> attendance (removeSession ''s1'' scenario_store) = []
   \<and> members (removeSession ''s1'' scenario_store) = [ann]"
  using remove_cascades [of "''m1''" scenario_store] remove_cascades [of "''s1''" scenario_store]
  by (simp add: removeMember_def removeSession_def scenario_store_def ann_def week1_def)

text \<open>
  C6, as the claim states it, fails: a patch may carry an \<open>id\<close> key, and the spread
  writes it into the entity. Updating member \<open>m1\<close> with the patch \<open>{id: "m2"}\<close> turns
  the list of member ids from \<open>[m1]\<close> into \<open>[m2]\<close>.
\<close>

theorem update_changes_id_counterexample:
  "map member_id (members (updateMember ''m1'' rename_id scenario_store)) = [''m2'']
   \<and> map member_id (members scenario_store) = [''m1'']"
  by (simp add: updateMember_def spread_member_def rename_id_def scenario_store_def ann_def)

text \<open>
  C6, amended. For every store, every id and every patch that has no \<open>id\<close> key, or
  whose \<open>id\<close> is the id it is applied to: the list of member ids after \<open>updateMember\<close>
  equals the list before, and the list of session ids after \<open>updateSession\<close> equals
  the list before.
\<close>

theorem update_keeps_ids:
  "((patch_member_id p = None \<or> patch_member_id p = Some i) \<longrightarrow>
      map member_id (members (updateMember i p s)) = map member_id (members s))
   \<and> ((patch_session_id q = None \<or> patch_session_id q = Some k) \<longrightarrow>
      map session_id (sessions (updateSession k q s)) = map session_id (sessions s))"
  by (auto simp: updateMember_def updateSession_def spread_member_def spread_session_def
           intro!: map_idI)

theorem update_keeps_ids_witness:
  "patch_member_id keep_name = None
   \<and> map member_id (members (updateMember ''m1'' keep_name scenario_store)) = [''m1'']
   \<and> patch_session_id retitle = None
   \<and> map session_id (sessions (updateSession ''s1'' retitle scenario_store)) = [''s1'']"
  using update_keeps_ids [of keep_name "''m1''" scenario_store retitle "''s1''"]
  by (simp add: keep_name_def retitle_def scenario_store_def ann_def week1_def)

text \<open>
  C9. For every store, every id that no member (respectively session) has, and every
  patch: \<open>updateMember\<close> (respectively \<open>updateSession\<close>) returns the store it was given.
  The operation has no error result.
\<close>

theorem update_unknown_id_noop:
  "(\<not> list_ex (\<lambda>m. member_id m = i) (members s) \<longrightarrow> updateMember i p s = s)
   \<and> (\<not> list_ex (\<lambda>x. session_id x = k) (sessions s) \<longrightarrow> updateSession k q s = s)"
proof (intro conjI impI)
  assume "\<not> list_ex (\<lambda>m. member_id m = i) (members s)"
  then have "map (\<lambda>m. if member_id m = i then spread_member m p else m) (members s) = members s"
    by (intro map_idI) (auto simp: list_ex_iff)
  then show "updateMember i p s = s"
    by (simp add: updateMember_def)
next
  assume "\<not> list_ex (\<lambda>x. session_id x = k) (sessions s)"
  then have "map (\<lambda>x. if session_id x = k then spread_session x q else x) (sessions s) = sessions s"
    by (intro map_idI) (auto simp: list_ex_iff)
  then show "updateSession k q s = s"
    by (simp add: updateSession_def)
qed

theorem update_unknown_id_noop_witness:
  "\<not> list_ex (\<lambda>m. member_id m = ''m7'') (members scenario_store)
   \<and> updateMember ''m7'' keep_name scenario_store = scenario_store
   \<and> \<not> list_ex (\<lambda>x. session_id x = ''s7'') (sessions scenario_store)
   \<and> updateSession ''s7'' retitle scenario_store = scenario_store"
  using update_unknown_id_noop [of "''m7''" scenario_store keep_name "''s7''" retitle]
  by (simp add: scenario_store_def ann_def week1_def)

section \<open>Import and load\<close>

lemma isStoreShape_has_fields:
  "isStoreShape c \<longleftrightarrow>
     has_array_field ''members'' c \<and> has_array_field ''sessions'' c
     \<and> has_array_field ''attendance'' c"
proof (cases c)
  case (JObj fs)
  have a: "Array_isArray v \<longleftrightarrow> (case v of Some (JArr vs) \<Rightarrow> True | _ \<Rightarrow> False)" for v
    by (cases v rule: Array_isArray.cases) simp_all
  show ?thesis
    by (simp add: JObj isStoreShape_def has_array_field_def a)
qed (simp_all add: isStoreShape_def has_array_field_def)

lemma typed_store_has_shape: "isStoreShape (json_of_store s)"
  by (simp add: isStoreShape_def json_of_store_def)

lemma importJson_replaces: "importJson c store = c"
  by (simp add: importJson_def)

text \<open>
  C3. For every candidate the imported file parses to: if it lacks one of the three
  array fields \<open>members\<close>, \<open>sessions\<close>, \<open>attendance\<close>, the import leaves the snapshot
  unchanged and alerts "Invalid backup format"; if it has all three, the snapshot
  becomes the candidate and nothing is alerted. The check is \<open>isStoreShape\<close>, made by
  \<open>onImport\<close> before it calls \<open>importJson\<close>.
\<close>

theorem import_shape_check:
  assumes "parse file_text = Inr c"
  shows "(\<not> (has_array_field ''members'' c \<and> has_array_field ''sessions'' c
             \<and> has_array_field ''attendance'' c) \<longrightarrow>
            reader_onload parse file_text store = (store, Some ''Invalid backup format''))
         \<and> (has_array_field ''members'' c \<and> has_array_field ''sessions'' c
             \<and> has_array_field ''attendance'' c \<longrightarrow>
            reader_onload parse file_text store = (c, None))"
  using assms by (simp add: reader_onload_def importJson_def isStoreShape_has_fields)

theorem import_shape_check_witness:
  "reader_onload (\<lambda>t. Inr two_fields) ''backup'' (json_of_store scenario_store) =
     (json_of_store scenario_store, Some ''Invalid backup format'')
   \<and> \<not> has_array_field ''attendance'' two_fields
   \<and> reader_onload (\<lambda>t. Inr (json_of_store scenario_store)) ''backup'' (json_of_store DEFAULT_STORE) =
     (json_of_store scenario_store, None)
   \<and> has_array_field ''members'' (json_of_store scenario_store)
   \<and> has_array_field ''sessions'' (json_of_store scenario_store)
   \<and> has_array_field ''attendance'' (json_of_store scenario_store)"
  using import_shape_check [where parse = "\<lambda>t. Inr two_fields" and file_text = "''backup''"
          and c = two_fields and store = "json_of_store scenario_store"]
    import_shape_check [where parse = "\<lambda>t. Inr (json_of_store scenario_store)"
          and file_text = "''backup''" and c = "json_of_store scenario_store"
          and store = "json_of_store DEFAULT_STORE"]
  by (simp add: has_array_field_def two_fields_def json_of_store_def)

text \<open>
  C8. Whatever the storage slot holds and whatever \<open>JSON.parse\<close> does, the load returns
  a store and throws nothing; if the slot is absent, or its text does not parse, the
  store is the empty store \<open>{members: [], sessions: [], attendance: []}\<close>.
\<close>

theorem load_never_throws:
  "(\<exists>s. DataProvider_load parse item = Inr s)
   \<and> ((item = Inr None \<or> (\<exists>raw e. item = Inr (Some raw) \<and> parse raw = Inl e)) \<longrightarrow>
        DataProvider_load parse item =
          Inr (JObj [(''members'', JArr []), (''sessions'', JArr []), (''attendance'', JArr [])]))"
  by (auto simp: DataProvider_load_def useLocalStore_load_def load_body_def json_of_store_def
        DEFAULT_STORE_def split: sum.splits option.splits)

theorem load_never_throws_witness:
  "DataProvider_load (\<lambda>t. Inl SyntaxError) (Inr (Some ''not json'')) =
     Inr (JObj [(''members'', JArr []), (''sessions'', JArr []), (''attendance'', JArr [])])
   \<and> DataProvider_load (\<lambda>t. Inl SyntaxError) (Inr None) =
     Inr (JObj [(''members'', JArr []), (''sessions'', JArr []), (''attendance'', JArr [])])"
  using load_never_throws [of "\<lambda>t. Inl SyntaxError" "Inr (Some ''not json'')"]
    load_never_throws [of "\<lambda>t. Inl SyntaxError" "Inr None"]
  by simp

section \<open>CSV quoting and export\<close>

lemma replaceAll_char:
  "replaceAll [c] rep s = concat (map (\<lambda>x. if x = c then rep else [x]) s)"
proof (induction s)
  case Nil
  show ?case by (subst replaceAll.simps) simp
next
  case (Cons x xs)
  show ?case by (subst replaceAll.simps) (simp add: Cons)
qed

lemma length_double: "length s \<le> length (concat (map (\<lambda>x. if x = c then [c, c] else [x]) s))"
  by (induction s) auto

lemma regex_test_set:
  "regex_test f \<longleftrightarrow> \<not> (dquote \<notin> set f \<and> comma \<notin> set f \<and> newline \<notin> set f)"
  by (auto simp: regex_test_def list_ex_iff)

text \<open>
  C4. The field encoder leaves a field unchanged if and only if it has no double quote,
  no comma and no newline; otherwise it emits the field with every double quote doubled
  and the whole wrapped in double quotes. The field \<open>Jane, "The Lead"\<close> encodes to
  \<open>"Jane, ""The Lead"""\<close>.
\<close>

theorem csv_field_quoting:
  "(csv_field f = f \<longleftrightarrow> dquote \<notin> set f \<and> comma \<notin> set f \<and> newline \<notin> set f)
   \<and> (\<not> (dquote \<notin> set f \<and> comma \<notin> set f \<and> newline \<notin> set f) \<longrightarrow>
        csv_field f =
          [dquote] @ concat (map (\<lambda>c. if c = dquote then [dquote, dquote] else [c]) f) @ [dquote])
   \<and> csv_field (''Jane, '' @ [dquote] @ ''The Lead'' @ [dquote]) =
        [dquote] @ ''Jane, '' @ [dquote, dquote] @ ''The Lead'' @ [dquote, dquote] @ [dquote]"
proof (intro conjI impI)
  show "csv_field f = f \<longleftrightarrow> dquote \<notin> set f \<and> comma \<notin> set f \<and> newline \<notin> set f"
  proof (cases "regex_test f")
    case True
    have "length (csv_field f) > length f"
      using True length_double [of f dquote] by (simp add: csv_field_def replaceAll_char)
    then have "csv_field f \<noteq> f" by auto
    with True show ?thesis by (simp add: regex_test_set)
  next
    case False
    then show ?thesis by (simp add: csv_field_def regex_test_set)
  qed
next
  assume "\<not> (dquote \<notin> set f \<and> comma \<notin> set f \<and> newline \<notin> set f)"
  then have "regex_test f" by (simp add: regex_test_set)
  then show "csv_field f =
          [dquote] @ concat (map (\<lambda>c. if c = dquote then [dquote, dquote] else [c]) f) @ [dquote]"
    by (simp add: csv_field_def replaceAll_char)
next
  show "csv_field (''Jane, '' @ [dquote] @ ''The Lead'' @ [dquote]) =
        [dquote] @ ''Jane, '' @ [dquote, dquote] @ ''The Lead'' @ [dquote, dquote] @ [dquote]"
    by (simp add: csv_field_def regex_test_def replaceAll_char dquote_def comma_def newline_def)
qed

theorem csv_field_quoting_witness:
  "csv_field ''Ann'' = ''Ann'' \<and> csv_field ''a,b'' = [dquote] @ ''a,b'' @ [dquote]
   \<and> csv_field [CHR ''x'', newline] = [dquote, CHR ''x'', newline, dquote]"
  using csv_field_quoting [of "''Ann''"] csv_field_quoting [of "''a,b''"]
    csv_field_quoting [of "[CHR ''x'', newline]"]
  by (simp add: dquote_def comma_def newline_def)

lemma fold_push: "fold (\<lambda>m rows. rows @ [g m]) ms init = init @ map g ms"
  by (induction ms arbitrary: init) auto

lemma or_empty_case: "or_empty v = (case v of None \<Rightarrow> [] | Some x \<Rightarrow> x)"
  by (simp add: or_empty_def split: option.split)

text \<open>What the scan into the \<open>Map\<close> leaves for a member: the last record of the key.\<close>

lemma attendanceMap_last:
  "attendanceMap s sid mid =
     (case filter (\<lambda>a. sessionId a = sid \<and> memberId a = mid) (attendance s) of
        [] \<Rightarrow> None
      | r # rs \<Rightarrow> Some (present (last (r # rs))))"
proof -
  let ?f = "\<lambda>rec m. if sessionId rec = sid then m(memberId rec \<mapsto> present rec) else m"
  let ?K = "\<lambda>a. sessionId a = sid \<and> memberId a = mid"
  have "fold ?f xs Map.empty mid =
          (case filter ?K xs of [] \<Rightarrow> None | r # rs \<Rightarrow> Some (present (last (r # rs))))" for xs
  proof (induction xs rule: rev_induct)
    case Nil
    show ?case by simp
  next
    case (snoc x xs)
    then show ?case by (auto split: list.splits)
  qed
  then show ?thesis by (simp add: attendanceMap_def)
qed

lemma filter_key_unique:
  "distinct (map (\<lambda>a. (sessionId a, memberId a)) xs) \<Longrightarrow>
   length (filter (\<lambda>a. sessionId a = sid \<and> memberId a = mid) xs) \<le> 1"
proof (induction xs)
  case Nil
  show ?case by simp
next
  case (Cons a as)
  show ?case
  proof (cases "sessionId a = sid \<and> memberId a = mid")
    case True
    with Cons.prems have "\<not> list_ex (\<lambda>a. sessionId a = sid \<and> memberId a = mid) as"
      by (auto simp: list_ex_iff image_iff)
    then have "filter (\<lambda>a. sessionId a = sid \<and> memberId a = mid) as = []"
      by (rule filter_key_absent)
    with True show ?thesis by simp
  next
    case False
    with Cons show ?thesis by auto
  qed
qed

lemma attendanceMap_unique:
  assumes "distinct (map (\<lambda>a. (sessionId a, memberId a)) (attendance s))"
  shows "attendanceMap s sid mid = Some True \<longleftrightarrow> spec_present s sid mid"
proof -
  let ?K = "\<lambda>a. sessionId a = sid \<and> memberId a = mid"
  have le: "length (filter ?K (attendance s)) \<le> 1"
    using assms by (rule filter_key_unique)
  have sp: "spec_present s sid mid \<longleftrightarrow> list_ex present (filter ?K (attendance s))"
    by (auto simp: spec_present_def list_ex_iff)
  show ?thesis
  proof (cases "filter ?K (attendance s)")
    case Nil
    then show ?thesis by (simp add: attendanceMap_last sp)
  next
    case (Cons r rs)
    with le have "rs = []" by simp
    with Cons show ?thesis by (simp add: attendanceMap_last sp)
  qed
qed

lemma find_holds: "find P xs = Some x \<Longrightarrow> P x"
  by (induction xs) (auto split: if_splits)

text \<open>
  C7, as the claim states it, fails on a store with two records of one key: the \<open>Map\<close>
  keeps the last of them. With the records \<open>(s1, m1, true)\<close> then \<open>(s1, m1, false)\<close> a
  record with \<open>present\<close> true exists, so the claim promises \<open>Yes\<close>, and the export says
  \<open>No\<close>.
\<close>

theorem export_csv_duplicate_counterexample:
  "week1 \<in> set (sessions dup_store)
   \<and> exportCsvForSession dup_store (session_id week1) =
       Some (''2025-01-01-Week 1-attendance.csv'',
             ''Member Name,Email,Phone,Present,Session Title,Date'' @ [newline]
               @ ''Ann,,,No,Week 1,2025-01-01'',
             ''text/csv'')
   \<and> spec_csv dup_store week1 =
       ''Member Name,Email,Phone,Present,Session Title,Date'' @ [newline]
         @ ''Ann,,,Yes,Week 1,2025-01-01''"
  by (simp add: exportCsvForSession_def attendanceMap_def or_empty_def
        spec_csv_def spec_row_def spec_present_def header_def dup_store_def
        ann_def week1_def csv_field_def regex_test_def dquote_def comma_def newline_def)

text \<open>
  C7, amended. For every store whose attendance list has at most one record per
  \<open>(sessionId, memberId)\<close> key, and every session the store selects by its id (the
  first session of the list with that id): the export is the header row followed by one
  row per member, in the order of the members list, with the columns name, email (empty
  when absent), phone (empty when absent), \<open>Yes\<close> if a record of the session and the
  member exists with \<open>present\<close> true and \<open>No\<close> otherwise, session title, session date;
  every field goes through the field encoder, the fields of a row are joined by commas
  and the rows by newlines.
\<close>

theorem export_csv_rows:
  assumes "distinct (map (\<lambda>a. (sessionId a, memberId a)) (attendance s))"
    and "find (\<lambda>x. session_id x = sid) (sessions s) = Some sess"
  shows "exportCsvForSession s sid =
           Some (dateISO sess @ ''-'' @ title sess @ ''-attendance.csv'',
                 spec_csv s sess, ''text/csv'')"
proof -
  have sid: "session_id sess = sid"
    using assms(2) by (rule find_holds)
  have row: "[member_name m, or_empty (email m), or_empty (phone m),
              (if attendanceMap s sid (member_id m) = Some True then ''Yes'' else ''No''),
              title sess, dateISO sess] = spec_row s sess m" for m
    by (simp add: spec_row_def or_empty_case sid attendanceMap_unique [OF assms(1)])
  show ?thesis
    by (simp add: exportCsvForSession_def assms(2) fold_push row spec_csv_def)
qed

theorem export_csv_rows_witness:
  "distinct (map (\<lambda>a. (sessionId a, memberId a)) (attendance scenario_store))
   \<and> find (\<lambda>x. session_id x = ''s1'') (sessions scenario_store) = Some week1
   \<and> exportCsvForSession scenario_store ''s1'' =
       Some (''2025-01-01-Week 1-attendance.csv'',
             ''Member Name,Email,Phone,Present,Session Title,Date'' @ [newline]
               @ ''Ann,,,Yes,Week 1,2025-01-01'',
             ''text/csv'')"
proof -
  have d: "distinct (map (\<lambda>a. (sessionId a, memberId a)) (attendance scenario_store))"
    by (simp add: scenario_store_def)
  have f: "find (\<lambda>x. session_id x = ''s1'') (sessions scenario_store) = Some week1"
    by (simp add: scenario_store_def week1_def)
  have c: "spec_csv scenario_store week1 =
      ''Member Name,Email,Phone,Present,Session Title,Date'' @ [newline]
               @ ''Ann,,,Yes,Week 1,2025-01-01''"
    by (simp add: spec_csv_def spec_row_def spec_present_def header_def scenario_store_def
          ann_def week1_def csv_field_def regex_test_def dquote_def comma_def newline_def)
  have t: "title week1 = ''Week 1''" "dateISO week1 = ''2025-01-01''"
    by (simp_all add: week1_def)
  show ?thesis
    using d f export_csv_rows [OF d f] by (simp add: c t)
qed

end
